theory Spec2Isabelle
  imports Main "HOL-Library.Multiset"
begin

section \<open>The process state and the output primitives\<close>

text \<open>
  \<^verbatim>\<open>mylib.c\<close> is one function, \<^verbatim>\<open>mylib_hello\<close>: an OpenMP parallel region whose body
  reads the thread number and prints one line with \<^verbatim>\<open>printf\<close>.

  The state a call can touch is the process state. Its one named field is the text written
  to standard output so far. The record is extensible, and every definition below is stated
  over \<open>'a process_scheme\<close>, so that it applies unchanged to a state with more fields,
  such as the runtime's worker threads further down.
\<close>

record process =
  stdout :: string

definition newline :: char where
  "newline = CHR 0x0A"

text \<open>The conversion \<^verbatim>\<open>%d\<close>: a signed decimal number without padding.\<close>

definition digit_char :: "nat \<Rightarrow> char" where
  "digit_char d = ''0123456789'' ! d"

fun dec_digits :: "nat \<Rightarrow> string" where
  "dec_digits n =
     (if n < 10 then [digit_char n] else dec_digits (n div 10) @ [digit_char (n mod 10)])"

declare dec_digits.simps [simp del]

definition printf_d :: "int \<Rightarrow> string" where
  "printf_d i = (if i < 0 then CHR ''-'' # dec_digits (nat (- i)) else dec_digits (nat i))"

text \<open>
  Line 8, \<^verbatim>\<open>printf("[mylib] Hello from thread %d\n", tid)\<close>: \<open>hello_format\<close> is the format
  string expanded at \<open>tid\<close>, and \<open>printf\<close> appends the expanded text to standard output and
  returns the number of characters written. A call of \<^verbatim>\<open>printf\<close> holds the lock of the
  stream while it writes (C11 7.21.2, POSIX \<^verbatim>\<open>flockfile\<close>), so one call is one step.
  Only successful writes are modelled.
\<close>

definition hello_format :: "int \<Rightarrow> string" where
  "hello_format tid = ''[mylib] Hello from thread '' @ printf_d tid @ [newline]"

definition printf :: "string \<Rightarrow> 'a process_scheme \<Rightarrow> int \<times> 'a process_scheme" where
  "printf text s = (int (length text), s\<lparr>stdout := stdout s @ text\<rparr>)"

section \<open>The parallel region\<close>

text \<open>
  The OpenMP runtime is not part of the repository; it enters the model as a parameter and
  as the two facts of the OpenMP specification the code relies on.

  \<^item> The team of a parallel region is the thread that encountered the construct, which
    gets thread number 0, and the threads the runtime adds for the region, numbered
    consecutively from 1. The number \<open>extra\<close> of added threads is the runtime's choice.
  \<^item> Every thread of the team executes the block once, in any interleaving, and the
    region ends when all of them have finished.

  \<open>pick ws w ws'\<close> takes any one thread \<open>w\<close> out of \<open>ws\<close> and leaves \<open>ws'\<close>.
  \<open>omp_parallel body ws s s'\<close>: the threads \<open>ws\<close> have still to run the block, the state is
  \<open>s\<close>, and the region can end in state \<open>s'\<close>.
\<close>

definition omp_team :: "nat \<Rightarrow> nat list" where
  "omp_team extra = 0 # map Suc [0..<extra]"

definition workerCount :: "nat \<Rightarrow> nat" where
  "workerCount extra = length (omp_team extra)"

definition omp_get_thread_num :: "nat \<Rightarrow> int" where
  "omp_get_thread_num w = int w"

inductive pick :: "'a list \<Rightarrow> 'a \<Rightarrow> 'a list \<Rightarrow> bool" where
  pick_here: "pick (x # xs) x xs"
| pick_later: "pick xs y ys \<Longrightarrow> pick (x # xs) y (x # ys)"

code_pred pick .

inductive omp_parallel :: "(nat \<Rightarrow> 's \<Rightarrow> 's) \<Rightarrow> nat list \<Rightarrow> 's \<Rightarrow> 's \<Rightarrow> bool"
  for body :: "nat \<Rightarrow> 's \<Rightarrow> 's"
where
  omp_join: "omp_parallel body [] s s"
| omp_run: "pick ws w ws' \<Longrightarrow> omp_parallel body ws' (body w s) s'
     \<Longrightarrow> omp_parallel body ws s s'"

code_pred omp_parallel .

text \<open>Lines 6 to 9, the block, as executed by the thread with number \<open>w\<close>.\<close>

definition region_body :: "nat \<Rightarrow> 'a process_scheme \<Rightarrow> 'a process_scheme" where
  "region_body w s = (let tid = omp_get_thread_num w in snd (printf (hello_format tid) s))"

text \<open>Lines 4 to 10: \<open>mylib_hello extra s s'\<close> holds when a call entered in \<open>s\<close> can return in \<open>s'\<close>.\<close>

definition mylib_hello :: "nat \<Rightarrow> 'a process_scheme \<Rightarrow> 'a process_scheme \<Rightarrow> bool" where
  "mylib_hello extra s s' = omp_parallel region_body (omp_team extra) s s'"

section \<open>Reading the output\<close>

text \<open>
  What an observer of standard output sees of one call: the text added between entry and
  return, cut into lines at the newline characters, and the index read back from a line
  of the form \<^verbatim>\<open>[mylib] Hello from thread <N>\<close>, where \<^verbatim>\<open><N>\<close> is a decimal numeral
  without sign and without leading zeros.
\<close>

definition printed :: "'a process_scheme \<Rightarrow> 'a process_scheme \<Rightarrow> string" where
  "printed s s' = drop (length (stdout s)) (stdout s')"

fun lines_of :: "string \<Rightarrow> string list" where
  "lines_of [] = []"
| "lines_of (c # cs) =
     (if c = newline then [] # lines_of cs
      else (case lines_of cs of [] \<Rightarrow> [[c]] | l # ls \<Rightarrow> (c # l) # ls))"

definition unlines :: "string list \<Rightarrow> string" where
  "unlines ls = concat (map (\<lambda>l. l @ [newline]) ls)"

definition digit_val :: "char \<Rightarrow> nat option" where
  "digit_val c =
     map_of [(CHR ''0'', 0), (CHR ''1'', 1), (CHR ''2'', 2), (CHR ''3'', 3), (CHR ''4'', 4),
             (CHR ''5'', 5), (CHR ''6'', 6), (CHR ''7'', 7), (CHR ''8'', 8), (CHR ''9'', 9)] c"

fun parse_digits :: "nat \<Rightarrow> string \<Rightarrow> nat option" where
  "parse_digits acc [] = Some acc"
| "parse_digits acc (c # cs) =
     (case digit_val c of None \<Rightarrow> None | Some d \<Rightarrow> parse_digits (10 * acc + d) cs)"

definition parse_dec :: "string \<Rightarrow> nat option" where
  "parse_dec cs =
     (if cs = [] \<or> (hd cs = CHR ''0'' \<and> tl cs \<noteq> []) then None else parse_digits 0 cs)"

definition strip_prefix :: "string \<Rightarrow> string \<Rightarrow> string option" where
  "strip_prefix p cs = (if take (length p) cs = p then Some (drop (length p) cs) else None)"

definition thread_index :: "string \<Rightarrow> nat option" where
  "thread_index l =
     (case strip_prefix ''[mylib] Hello from thread '' l of
        None \<Rightarrow> None
      | Some r \<Rightarrow> parse_dec r)"

text \<open>The line the thread with number \<open>w\<close> is expected to print, without its newline.\<close>

definition greeting :: "nat \<Rightarrow> string" where
  "greeting w = ''[mylib] Hello from thread '' @ dec_digits w"

section \<open>The runtime's worker threads\<close>

text \<open>
  The threads the runtime adds to a team are threads of the process. The common runtimes
  (libgomp, libomp) create the ones they lack when the region is entered and let them
  wait for the next region when it ends, so after a call the process holds at least the
  threads added for its region and no more than it held or needed. \<open>omp_workers\<close> is the
  number of such threads the process holds, and \<open>held\<close>, like \<open>extra\<close>, is the runtime's
  choice. \<open>mylib_hello_in_runtime\<close> is a call together with this bookkeeping.
\<close>

record runtime_process = process +
  omp_workers :: nat


section \<open>Schedules of the region\<close>

text \<open>
  A run of the region is the block executed by the threads of the team one after the
  other in some order, and every order is a run.
\<close>

lemma pick_mset: "pick ws w ws' \<Longrightarrow> mset ws = add_mset w (mset ws')"
  by (induction rule: pick.induct) simp_all

lemma pick_member: "w \<in> set ws \<Longrightarrow> \<exists>ws'. pick ws w ws'"
proof (induction ws)
  case Nil
  then show ?case by simp
next
  case (Cons x xs)
  show ?case
  proof (cases "w = x")
    case True
    then show ?thesis by (auto intro: pick_here)
  next
    case False
    with Cons obtain ys where "pick xs w ys" by auto
    then show ?thesis by (auto intro: pick_later)
  qed
qed

lemma omp_parallel_schedule:
  "omp_parallel body ws s s' \<Longrightarrow> \<exists>p. mset p = mset ws \<and> s' = fold body p s"
proof (induction rule: omp_parallel.induct)
  case (omp_join s)
  show ?case by (rule exI [of _ "[]"]) simp
next
  case (omp_run ws w ws' s s')
  then obtain p where p: "mset p = mset ws'" "s' = fold body p (body w s)" by blast
  show ?case
    by (rule exI [of _ "w # p"]) (simp add: p pick_mset [OF omp_run.hyps(1)])
qed

lemma omp_parallel_any_order:
  "mset p = mset ws \<Longrightarrow> omp_parallel body ws s (fold body p s)"
proof (induction p arbitrary: ws s)
  case Nil
  then show ?case by (simp add: omp_join)
next
  case (Cons w p)
  then have "w \<in> set ws" by (metis list.set_intros(1) mset_eq_setD)
  then have "\<exists>ws'. pick ws w ws'" by (rule pick_member)
  then obtain ws' where pk: "pick ws w ws'" ..
  with Cons.prems have "mset p = mset ws'" by (simp add: pick_mset)
  then have "omp_parallel body ws' (body w s) (fold body p (body w s))" by (rule Cons.IH)
  with pk show ?case by (simp add: omp_run)
qed

lemma workerCount_Suc: "workerCount extra = Suc extra"
  by (simp add: workerCount_def omp_team_def)

lemma omp_team_upt: "omp_team extra = [0..<workerCount extra]"
  unfolding workerCount_Suc omp_team_def by (metis map_Suc_upt upt_conv_Cons zero_less_Suc)

section \<open>The text of one call\<close>

lemma region_body_eq: "region_body w s = s\<lparr>stdout := stdout s @ greeting w @ [newline]\<rparr>"
  by (simp add: region_body_def printf_def hello_format_def printf_d_def
        omp_get_thread_num_def greeting_def)

lemma fold_region_body:
  "fold region_body p s = s\<lparr>stdout := stdout s @ unlines (map greeting p)\<rparr>"
  by (induction p arbitrary: s) (simp_all add: unlines_def region_body_eq)

lemma digit_cases: "d < 10 \<Longrightarrow> d \<in> {0, 1, 2, 3, 4, 5, 6, 7, 8, 9 :: nat}"
  by auto

lemma digit_char_set: "d < 10 \<Longrightarrow> digit_char d \<in> set ''0123456789''"
  using digit_cases [of d] by (auto simp: digit_char_def)

lemma digit_val_digit_char: "d < 10 \<Longrightarrow> digit_val (digit_char d) = Some d"
  using digit_cases [of d] by (auto simp: digit_val_def digit_char_def)

lemma digit_char_zero: "d < 10 \<Longrightarrow> digit_char d = CHR ''0'' \<Longrightarrow> d = 0"
  using digit_cases [of d] by (auto simp: digit_char_def)

lemma dec_digits_set: "set (dec_digits n) \<subseteq> set ''0123456789''"
proof (induction n rule: dec_digits.induct)
  case (1 n)
  show ?case
  proof (cases "n < 10")
    case True
    then show ?thesis using digit_char_set [of n] by (simp add: dec_digits.simps [of n])
  next
    case False
    have "n mod 10 < 10" by simp
    then have "digit_char (n mod 10) \<in> set ''0123456789''" by (rule digit_char_set)
    with False "1.IH" show ?thesis by (simp add: dec_digits.simps [of n])
  qed
qed

lemma dec_digits_not_Nil: "dec_digits n \<noteq> []"
  by (simp add: dec_digits.simps [of n])

lemma parse_digits_snoc:
  "parse_digits acc (cs @ [c]) =
     (case parse_digits acc cs of None \<Rightarrow> None
      | Some v \<Rightarrow> (case digit_val c of None \<Rightarrow> None | Some d \<Rightarrow> Some (10 * v + d)))"
  by (induction cs arbitrary: acc) (simp_all split: option.splits)

lemma parse_digits_dec_digits: "parse_digits 0 (dec_digits n) = Some n"
proof (induction n rule: dec_digits.induct)
  case (1 n)
  show ?case
  proof (cases "n < 10")
    case True
    then show ?thesis by (simp add: dec_digits.simps [of n] digit_val_digit_char)
  next
    case False
    have "n mod 10 < 10" by simp
    then have "digit_val (digit_char (n mod 10)) = Some (n mod 10)" by (rule digit_val_digit_char)
    with False "1.IH" show ?thesis by (simp add: dec_digits.simps [of n] parse_digits_snoc)
  qed
qed

lemma hd_dec_digits_zero: "hd (dec_digits n) = CHR ''0'' \<Longrightarrow> n = 0"
proof (induction n rule: dec_digits.induct)
  case (1 n)
  show ?case
  proof (cases "n < 10")
    case True
    with "1.prems" show ?thesis by (simp add: dec_digits.simps [of n] digit_char_zero)
  next
    case False
    with "1.prems" have "hd (dec_digits (n div 10)) = CHR ''0''"
      by (simp add: dec_digits.simps [of n] dec_digits_not_Nil)
    with False "1.IH" have "n div 10 = 0" by simp
    with False show ?thesis by simp
  qed
qed

lemma parse_dec_dec_digits: "parse_dec (dec_digits n) = Some n"
proof (cases "hd (dec_digits n) = CHR ''0''")
  case True
  then have "n = 0" by (rule hd_dec_digits_zero)
  then show ?thesis by (simp add: parse_dec_def dec_digits.simps [of 0] digit_char_def digit_val_def)
next
  case False
  then show ?thesis by (simp add: parse_dec_def dec_digits_not_Nil parse_digits_dec_digits)
qed

lemma thread_index_greeting: "thread_index (greeting w) = Some w"
  by (simp add: thread_index_def strip_prefix_def greeting_def parse_dec_dec_digits)

lemma newline_notin_greeting: "newline \<notin> set (greeting w)"
  using dec_digits_set [of w] by (auto simp: greeting_def newline_def)

lemma greeting_not_Nil: "greeting w \<noteq> []"
  by (simp add: greeting_def)

lemma lines_of_line: "newline \<notin> set l \<Longrightarrow> lines_of (l @ newline # cs) = l # lines_of cs"
  by (induction l) auto

lemma lines_of_unlines: "\<forall>l \<in> set ls. newline \<notin> set l \<Longrightarrow> lines_of (unlines ls) = ls"
  by (induction ls) (simp_all add: unlines_def lines_of_line)

lemma lines_of_greetings: "lines_of (unlines (map greeting p)) = map greeting p"
  by (rule lines_of_unlines) (simp add: newline_notin_greeting)

section \<open>What a call does\<close>

text \<open>
  A call returns in \<open>s'\<close> exactly when \<open>s'\<close> is the entry state with the greetings of the
  team appended to standard output, one line each, in some order.
\<close>

lemma printed_append: "printed s (s\<lparr>stdout := stdout s @ d\<rparr>) = d"
  by (simp add: printed_def)

lemma mylib_hello_schedule:
  assumes "mylib_hello extra s s'"
  shows "\<exists>p. mset p = mset [0..<workerCount extra] \<and>
    s' = s\<lparr>stdout := stdout s @ unlines (map greeting p)\<rparr>"
proof -
  from assms have "omp_parallel region_body (omp_team extra) s s'"
    by (simp add: mylib_hello_def)
  then have "\<exists>p. mset p = mset (omp_team extra) \<and> s' = fold region_body p s"
    by (rule omp_parallel_schedule)
  then obtain p where "mset p = mset (omp_team extra)" and "s' = fold region_body p s"
    by (elim exE conjE)
  then show ?thesis
    by (metis omp_team_upt fold_region_body)
qed

lemma mylib_hello_any_order:
  assumes "mset p = mset [0..<workerCount extra]"
  shows "mylib_hello extra s (s\<lparr>stdout := stdout s @ unlines (map greeting p)\<rparr>)"
proof -
  from assms have "mset p = mset (omp_team extra)" by (simp only: omp_team_upt)
  then have "omp_parallel region_body (omp_team extra) s (fold region_body p s)"
    by (rule omp_parallel_any_order)
  then show ?thesis by (simp only: mylib_hello_def fold_region_body)
qed

text \<open>
  The call has no error result and is total: from every entry state, with every team,
  there is a state it returns in.
\<close>

lemma mylib_hello_total: "\<exists>s'. mylib_hello extra s s'"
  by (rule exI, rule mylib_hello_any_order [of "[0..<workerCount extra]"]) simp

lemma mylib_hello_output:
  assumes "mylib_hello extra s s'"
  shows "\<exists>p. mset p = mset [0..<workerCount extra] \<and>
    printed s s' = unlines (map greeting p) \<and>
    lines_of (printed s s') = map greeting p \<and>
    stdout s' = stdout s @ printed s s' \<and>
    process.more s' = process.more s"
proof -
  from mylib_hello_schedule [OF assms] obtain p where
    p: "mset p = mset [0..<workerCount extra]"
    and s': "s' = s\<lparr>stdout := stdout s @ unlines (map greeting p)\<rparr>"
    by (elim exE conjE)
  have "printed s s' = unlines (map greeting p)" by (simp only: s' printed_append)
  moreover have "lines_of (unlines (map greeting p)) = map greeting p" by (rule lines_of_greetings)
  moreover have "stdout s' = stdout s @ unlines (map greeting p)" by (simp add: s')
  moreover have "process.more s' = process.more s" by (simp add: s')
  ultimately show ?thesis using p by (intro exI [of _ p] conjI) simp_all
qed

lemma indices_of_greetings: "map thread_index (map greeting p) = map Some p"
  by (simp add: thread_index_greeting)

lemma team_member: "mset p = mset [0..<n] \<Longrightarrow> w \<in> set p \<Longrightarrow> w < n"
  by (metis atLeastLessThan_iff mset_eq_setD set_upt)

lemma greeting_0: "greeting 0 = ''[mylib] Hello from thread 0''"
  by (simp add: greeting_def dec_digits.simps digit_char_def)

lemma newlines_of_unlines:
  "\<forall>l \<in> set ls. newline \<notin> set l \<Longrightarrow>
     length (filter (\<lambda>c. c = newline) (unlines ls)) = length ls"
  by (induction ls) (auto simp: unlines_def filter_empty_conv)

section \<open>What holds when a call returns\<close>

lemma indices_after_call:
  assumes "mylib_hello extra s s'"
  shows "mset (map thread_index (lines_of (printed s s'))) = mset (map Some [0..<workerCount extra])
    \<and> length (lines_of (printed s s')) = workerCount extra"
proof -
  from mylib_hello_output [OF assms] obtain p where
    p: "mset p = mset [0..<workerCount extra]"
    and l: "lines_of (printed s s') = map greeting p" by (elim exE conjE)
  have i: "map thread_index (lines_of (printed s s')) = map Some p"
    by (simp only: l indices_of_greetings)
  have "mset (map thread_index (lines_of (printed s s'))) = mset (map Some p)"
    by (simp only: i)
  also have "\<dots> = mset (map Some [0..<workerCount extra])"
    using p by (metis mset_map)
  finally have indices: "mset (map thread_index (lines_of (printed s s'))) =
    mset (map Some [0..<workerCount extra])" .
  have "length (lines_of (printed s s')) = length p"
    by (simp only: l length_map)
  also have "\<dots> = workerCount extra"
    using p by (metis length_upt mset_eq_length minus_nat.diff_0)
  finally have "length (lines_of (printed s s')) = workerCount extra" .
  with indices show ?thesis by (rule conjI)
qed

lemma one_worker_after_call:
  assumes "workerCount extra = 1" and "mylib_hello extra s s'"
  shows "lines_of (printed s s') = [''[mylib] Hello from thread 0'']
    \<and> printed s s' = ''[mylib] Hello from thread 0'' @ [newline]"
proof -
  from mylib_hello_output [OF assms(2)] obtain p where
    p: "mset p = mset [0..<workerCount extra]"
    and t: "printed s s' = unlines (map greeting p)"
    and ls: "lines_of (printed s s') = map greeting p" by (elim exE conjE)
  from p assms(1) have "mset p = {#0#}" by simp
  then have "p = [0]" by (simp only: mset_single_iff)
  with t ls show ?thesis by (simp add: greeting_0 unlines_def)
qed

lemma four_workers_after_call:
  assumes "workerCount extra = 4" and "mylib_hello extra s s'"
  shows "length (lines_of (printed s s')) = 4
    \<and> (\<exists>idx. map thread_index (lines_of (printed s s')) = map Some idx \<and> sort idx = [0, 1, 2, 3])"
proof -
  from mylib_hello_output [OF assms(2)] obtain p where
    p: "mset p = mset [0..<workerCount extra]"
    and ls: "lines_of (printed s s') = map greeting p" by (elim exE conjE)
  have four: "[0..<4] = [0, 1, 2, 3 :: nat]" by code_simp
  from p assms(1) have p4: "mset p = mset [0, 1, 2, 3]" by (simp only: four)
  have "sort p = [0, 1, 2, 3]"
    by (rule properties_for_sort [OF p4 [symmetric]]) simp
  moreover have "map thread_index (lines_of (printed s s')) = map Some p"
    by (simp only: ls indices_of_greetings)
  moreover have "length p = 4" using mset_eq_length [OF p4] by simp
  ultimately show ?thesis by (simp only: ls length_map) blast
qed

lemma index_zero_after_call:
  assumes "mylib_hello extra s s'"
  shows "1 \<le> length (lines_of (printed s s'))
    \<and> ''[mylib] Hello from thread 0'' \<in> set (lines_of (printed s s'))
    \<and> Some 0 \<in> set (map thread_index (lines_of (printed s s')))"
proof -
  from mylib_hello_output [OF assms] obtain p where
    p: "mset p = mset [0..<workerCount extra]"
    and ls: "lines_of (printed s s') = map greeting p" by (elim exE conjE)
  have "0 \<in> set [0..<workerCount extra]" by (simp add: workerCount_Suc del: upt_Suc)
  then have zero: "0 \<in> set p" using p by (metis mset_eq_setD)
  then have "p \<noteq> []" by auto
  then have "1 \<le> length (lines_of (printed s s'))"
    by (cases p) (simp_all add: ls)
  moreover from zero have "''[mylib] Hello from thread 0'' \<in> set (lines_of (printed s s'))"
    unfolding ls greeting_0 [symmetric] by (rule imageI [of 0 "set p" greeting, unfolded set_map [symmetric]])
  moreover from zero have "Some 0 \<in> set (map thread_index (lines_of (printed s s')))"
    unfolding ls indices_of_greetings by simp
  ultimately show ?thesis by (intro conjI)
qed

lemma each_line_once:
  assumes "mylib_hello extra s s'" and "w < workerCount extra"
  shows "count (mset (lines_of (printed s s'))) (greeting w) = 1"
proof -
  from mylib_hello_output [OF assms(1)] obtain p where
    p: "mset p = mset [0..<workerCount extra]"
    and ls: "lines_of (printed s s') = map greeting p" by (elim exE conjE)
  have inj: "inj greeting"
    by (rule inj_on_inverseI [where g = "\<lambda>l. the (thread_index l)"])
       (simp add: thread_index_greeting)
  have "distinct p" using mset_eq_imp_distinct_iff [OF p] by simp
  then have d: "distinct (map greeting p)"
    using inj by (simp add: distinct_map inj_on_def)
  have "w \<in> set [0..<workerCount extra]" using assms(2) by (simp del: upt_Suc)
  then have "w \<in> set p" using p by (metis mset_eq_setD)
  then have "greeting w \<in> set (map greeting p)" by simp
  with d have "count (mset (map greeting p)) (greeting w) = 1"
    by (simp only: distinct_count_atmost_1 [THEN iffD1, rule_format] if_True)
  then show ?thesis by (simp only: ls)
qed



section \<open>The properties of the specification\<close>

text \<open>
  C1. Every call returns, and in every state it returns in, the indices read back from the
  lines printed during the call are, as a multiset, exactly \<open>0, ..., workerCount extra - 1\<close>:
  no index twice, none missing. The number of lines printed is \<open>workerCount extra\<close>.
\<close>

theorem hello_prints_each_index_once:
  "(\<exists>s'. mylib_hello extra s s') \<and>
   (\<forall>s'. mylib_hello extra s s' \<longrightarrow>
      mset (map thread_index (lines_of (printed s s'))) = mset (map Some [0..<workerCount extra])
      \<and> length (lines_of (printed s s')) = workerCount extra)"
proof (rule conjI)
  show "\<exists>s'. mylib_hello extra s s'" by (rule mylib_hello_total)
  show "\<forall>s'. mylib_hello extra s s' \<longrightarrow>
      mset (map thread_index (lines_of (printed s s'))) = mset (map Some [0..<workerCount extra])
      \<and> length (lines_of (printed s s')) = workerCount extra"
  proof (intro allI impI)
    fix s'
    assume "mylib_hello extra s s'"
    then show "mset (map thread_index (lines_of (printed s s')))
        = mset (map Some [0..<workerCount extra])
      \<and> length (lines_of (printed s s')) = workerCount extra"
      by (rule indices_after_call)
  qed
qed

theorem hello_prints_each_index_once_witness:
  "(\<exists>s'. mylib_hello 1 \<lparr>stdout = []\<rparr> s')
   \<and> mylib_hello 1 \<lparr>stdout = []\<rparr>
       \<lparr>stdout = unlines [''[mylib] Hello from thread 1'', ''[mylib] Hello from thread 0'']\<rparr>
   \<and> mset (map thread_index (lines_of (printed \<lparr>stdout = []\<rparr>
         \<lparr>stdout = unlines [''[mylib] Hello from thread 1'', ''[mylib] Hello from thread 0'']\<rparr>)))
       = mset (map Some [0..<workerCount 1])
   \<and> length (lines_of (printed \<lparr>stdout = []\<rparr>
         \<lparr>stdout = unlines [''[mylib] Hello from thread 1'', ''[mylib] Hello from thread 0'']\<rparr>))
       = workerCount 1"
proof -
  have h: "mylib_hello 1 \<lparr>stdout = []\<rparr>
     \<lparr>stdout = unlines [''[mylib] Hello from thread 1'', ''[mylib] Hello from thread 0'']\<rparr>"
    using mylib_hello_any_order [of "[1, 0]" 1 "\<lparr>stdout = []\<rparr>"]
    by (simp add: workerCount_Suc greeting_def dec_digits.simps digit_char_def)
  note t = hello_prints_each_index_once [of 1 "\<lparr>stdout = []\<rparr>"]
  show ?thesis
    by (rule conjI [OF t [THEN conjunct1]
          conjI [OF h t [THEN conjunct2, THEN spec, THEN mp, OF h]]])
qed

text \<open>
  C2. Every line printed during a call is \<^verbatim>\<open>[mylib] Hello from thread \<close> followed by the
  decimal digits of a number \<open>N\<close> with \<open>N < workerCount extra\<close>; read back, the line gives
  the index \<open>N\<close>, which has no sign and no leading zero.
\<close>

theorem hello_lines_match_pattern:
  assumes "mylib_hello extra s s'"
  shows "\<forall>l \<in> set (lines_of (printed s s')).
    \<exists>N. N < workerCount extra \<and> l = ''[mylib] Hello from thread '' @ dec_digits N
      \<and> thread_index l = Some N"
proof
  fix l
  assume l: "l \<in> set (lines_of (printed s s'))"
  from mylib_hello_output [OF assms] obtain p where
    p: "mset p = mset [0..<workerCount extra]"
    and ls: "lines_of (printed s s') = map greeting p" by (elim exE conjE)
  from l ls obtain w where w: "w \<in> set p" and lw: "l = greeting w" by auto
  from p w have "w < workerCount extra" by (rule team_member)
  moreover have "l = ''[mylib] Hello from thread '' @ dec_digits w"
    by (simp only: lw greeting_def)
  moreover have "thread_index l = Some w"
    by (simp only: lw thread_index_greeting)
  ultimately show "\<exists>N. N < workerCount extra \<and> l = ''[mylib] Hello from thread '' @ dec_digits N
      \<and> thread_index l = Some N" by (intro exI [of _ w] conjI)
qed

theorem hello_lines_match_pattern_witness:
  "mylib_hello 2 \<lparr>stdout = ''boot''\<rparr>
     \<lparr>stdout = ''boot'' @ unlines [''[mylib] Hello from thread 2'',
        ''[mylib] Hello from thread 0'', ''[mylib] Hello from thread 1'']\<rparr>
   \<and> (\<exists>N. N < workerCount 2
       \<and> ''[mylib] Hello from thread 2'' = ''[mylib] Hello from thread '' @ dec_digits N
       \<and> thread_index ''[mylib] Hello from thread 2'' = Some N)"
proof -
  have team: "[0..<workerCount 2] = [0, 1, 2]" by code_simp
  have h: "mylib_hello 2 \<lparr>stdout = ''boot''\<rparr>
     \<lparr>stdout = ''boot'' @ unlines [''[mylib] Hello from thread 2'',
        ''[mylib] Hello from thread 0'', ''[mylib] Hello from thread 1'']\<rparr>"
    using mylib_hello_any_order [of "[2, 0, 1]" 2 "\<lparr>stdout = ''boot''\<rparr>"]
    by (simp add: team greeting_def dec_digits.simps digit_char_def)
  have m: "''[mylib] Hello from thread 2'' \<in> set (lines_of (printed \<lparr>stdout = ''boot''\<rparr>
     \<lparr>stdout = ''boot'' @ unlines [''[mylib] Hello from thread 2'',
        ''[mylib] Hello from thread 0'', ''[mylib] Hello from thread 1'']\<rparr>))"
    by (simp add: printed_def unlines_def newline_def)
  show ?thesis by (rule conjI [OF h bspec [OF hello_lines_match_pattern [OF h] m]])
qed

text \<open>
  C3. Every call returns, and in every state it returns in, the line of each thread of the
  team is among the lines printed during the call, exactly once, and the call has printed
  no other line. So when control is back with the caller every thread has printed its
  line and none is left to print. That the region ends only when all its threads have
  finished is the runtime's join, rule \<open>omp_join\<close>.
\<close>

theorem hello_returns_with_every_line_printed:
  "(\<exists>s'. mylib_hello extra s s') \<and>
   (\<forall>s'. mylib_hello extra s s' \<longrightarrow>
      (\<forall>w<workerCount extra. count (mset (lines_of (printed s s'))) (greeting w) = 1)
      \<and> length (lines_of (printed s s')) = workerCount extra)"
proof (rule conjI)
  show "\<exists>s'. mylib_hello extra s s'" by (rule mylib_hello_total)
  show "\<forall>s'. mylib_hello extra s s' \<longrightarrow>
      (\<forall>w<workerCount extra. count (mset (lines_of (printed s s'))) (greeting w) = 1)
      \<and> length (lines_of (printed s s')) = workerCount extra"
  proof (intro allI impI conjI)
    fix s' w
    assume "mylib_hello extra s s'" and "w < workerCount extra"
    then show "count (mset (lines_of (printed s s'))) (greeting w) = 1"
      by (rule each_line_once)
  next
    fix s'
    assume "mylib_hello extra s s'"
    then show "length (lines_of (printed s s')) = workerCount extra"
      by (rule indices_after_call [THEN conjunct2])
  qed
qed

theorem hello_returns_with_every_line_printed_witness:
  "(\<exists>s'. mylib_hello 2 \<lparr>stdout = ''$ ''\<rparr> s')
   \<and> mylib_hello 2 \<lparr>stdout = ''$ ''\<rparr>
       \<lparr>stdout = ''$ '' @ unlines [''[mylib] Hello from thread 1'',
          ''[mylib] Hello from thread 2'', ''[mylib] Hello from thread 0'']\<rparr>
   \<and> 2 < workerCount 2
   \<and> count (mset (lines_of (printed \<lparr>stdout = ''$ ''\<rparr>
         \<lparr>stdout = ''$ '' @ unlines [''[mylib] Hello from thread 1'',
            ''[mylib] Hello from thread 2'', ''[mylib] Hello from thread 0'']\<rparr>))) (greeting 2) = 1
   \<and> length (lines_of (printed \<lparr>stdout = ''$ ''\<rparr>
         \<lparr>stdout = ''$ '' @ unlines [''[mylib] Hello from thread 1'',
            ''[mylib] Hello from thread 2'', ''[mylib] Hello from thread 0'']\<rparr>))
       = workerCount 2"
proof -
  have team: "[0..<workerCount 2] = [0, 1, 2]" by code_simp
  have h: "mylib_hello 2 \<lparr>stdout = ''$ ''\<rparr>
       \<lparr>stdout = ''$ '' @ unlines [''[mylib] Hello from thread 1'',
          ''[mylib] Hello from thread 2'', ''[mylib] Hello from thread 0'']\<rparr>"
    using mylib_hello_any_order [of "[1, 2, 0]" 2 "\<lparr>stdout = ''$ ''\<rparr>"]
    by (simp add: team greeting_def dec_digits.simps digit_char_def)
  have lt: "2 < workerCount 2" by (simp add: workerCount_Suc)
  note t = hello_returns_with_every_line_printed [of 2 "\<lparr>stdout = ''$ ''\<rparr>",
    THEN conjunct2, THEN spec, THEN mp, OF h]
  show ?thesis
    by (rule conjI [OF hello_returns_with_every_line_printed
            [of 2 "\<lparr>stdout = ''$ ''\<rparr>", THEN conjunct1]
          conjI [OF h conjI [OF lt
            conjI [OF t [THEN conjunct1, THEN spec, THEN mp, OF lt] t [THEN conjunct2]]]]])
qed

text \<open>
  C4. With a team of exactly one thread, every call returns, having printed exactly one
  line, and the line is \<^verbatim>\<open>[mylib] Hello from thread 0\<close>.
\<close>

theorem hello_one_worker:
  assumes "workerCount extra = 1"
  shows "(\<exists>s'. mylib_hello extra s s') \<and>
    (\<forall>s'. mylib_hello extra s s' \<longrightarrow>
       lines_of (printed s s') = [''[mylib] Hello from thread 0'']
       \<and> printed s s' = ''[mylib] Hello from thread 0'' @ [newline])"
proof (rule conjI)
  show "\<exists>s'. mylib_hello extra s s'" by (rule mylib_hello_total)
  show "\<forall>s'. mylib_hello extra s s' \<longrightarrow>
       lines_of (printed s s') = [''[mylib] Hello from thread 0'']
       \<and> printed s s' = ''[mylib] Hello from thread 0'' @ [newline]"
  proof (intro allI impI)
    fix s'
    assume "mylib_hello extra s s'"
    with assms show "lines_of (printed s s') = [''[mylib] Hello from thread 0'']
       \<and> printed s s' = ''[mylib] Hello from thread 0'' @ [newline]"
      by (rule one_worker_after_call)
  qed
qed

theorem hello_one_worker_witness:
  "workerCount 0 = 1
   \<and> (\<exists>s'. mylib_hello 0 \<lparr>stdout = ''x''\<rparr> s')
   \<and> mylib_hello 0 \<lparr>stdout = ''x''\<rparr>
       \<lparr>stdout = ''x'' @ ''[mylib] Hello from thread 0'' @ [newline]\<rparr>
   \<and> lines_of (printed \<lparr>stdout = ''x''\<rparr>
         \<lparr>stdout = ''x'' @ ''[mylib] Hello from thread 0'' @ [newline]\<rparr>)
       = [''[mylib] Hello from thread 0'']
   \<and> printed \<lparr>stdout = ''x''\<rparr> \<lparr>stdout = ''x'' @ ''[mylib] Hello from thread 0'' @ [newline]\<rparr>
       = ''[mylib] Hello from thread 0'' @ [newline]"
proof -
  have n: "workerCount 0 = 1" by (simp add: workerCount_Suc)
  have h: "mylib_hello 0 \<lparr>stdout = ''x''\<rparr>
      \<lparr>stdout = ''x'' @ ''[mylib] Hello from thread 0'' @ [newline]\<rparr>"
    using mylib_hello_any_order [of "[0]" 0 "\<lparr>stdout = ''x''\<rparr>"]
    by (simp add: workerCount_Suc unlines_def greeting_0)
  note t = hello_one_worker [OF n, of "\<lparr>stdout = ''x''\<rparr>"]
  show ?thesis
    by (rule conjI [OF n conjI [OF t [THEN conjunct1]
          conjI [OF h t [THEN conjunct2, THEN spec, THEN mp, OF h]]]])
qed

text \<open>
  C5. With a team of exactly four threads, every call returns, having printed exactly four
  lines, and the indices read back from them, sorted ascending, are 0, 1, 2, 3.
\<close>

theorem hello_four_workers:
  assumes "workerCount extra = 4"
  shows "(\<exists>s'. mylib_hello extra s s') \<and>
    (\<forall>s'. mylib_hello extra s s' \<longrightarrow>
       length (lines_of (printed s s')) = 4
       \<and> (\<exists>idx. map thread_index (lines_of (printed s s')) = map Some idx
            \<and> sort idx = [0, 1, 2, 3]))"
proof (rule conjI)
  show "\<exists>s'. mylib_hello extra s s'" by (rule mylib_hello_total)
  show "\<forall>s'. mylib_hello extra s s' \<longrightarrow>
       length (lines_of (printed s s')) = 4
       \<and> (\<exists>idx. map thread_index (lines_of (printed s s')) = map Some idx
            \<and> sort idx = [0, 1, 2, 3])"
  proof (intro allI impI)
    fix s'
    assume "mylib_hello extra s s'"
    with assms show "length (lines_of (printed s s')) = 4
       \<and> (\<exists>idx. map thread_index (lines_of (printed s s')) = map Some idx
            \<and> sort idx = [0, 1, 2, 3])"
      by (rule four_workers_after_call)
  qed
qed

theorem hello_four_workers_witness:
  "workerCount 3 = 4
   \<and> (\<exists>s'. mylib_hello 3 \<lparr>stdout = []\<rparr> s')
   \<and> mylib_hello 3 \<lparr>stdout = []\<rparr>
       \<lparr>stdout = unlines [''[mylib] Hello from thread 2'', ''[mylib] Hello from thread 0'',
          ''[mylib] Hello from thread 3'', ''[mylib] Hello from thread 1'']\<rparr>
   \<and> length (lines_of (printed \<lparr>stdout = []\<rparr>
       \<lparr>stdout = unlines [''[mylib] Hello from thread 2'', ''[mylib] Hello from thread 0'',
          ''[mylib] Hello from thread 3'', ''[mylib] Hello from thread 1'']\<rparr>)) = 4
   \<and> (\<exists>idx. map thread_index (lines_of (printed \<lparr>stdout = []\<rparr>
       \<lparr>stdout = unlines [''[mylib] Hello from thread 2'', ''[mylib] Hello from thread 0'',
          ''[mylib] Hello from thread 3'', ''[mylib] Hello from thread 1'']\<rparr>)) = map Some idx
        \<and> sort idx = [0, 1, 2, 3])"
proof -
  have n: "workerCount 3 = 4" by (simp add: workerCount_Suc)
  have four: "[0..<4] = [0, 1, 2, 3 :: nat]" by code_simp
  have h: "mylib_hello 3 \<lparr>stdout = []\<rparr>
       \<lparr>stdout = unlines [''[mylib] Hello from thread 2'', ''[mylib] Hello from thread 0'',
          ''[mylib] Hello from thread 3'', ''[mylib] Hello from thread 1'']\<rparr>"
    using mylib_hello_any_order [of "[2, 0, 3, 1]" 3 "\<lparr>stdout = []\<rparr>"]
    by (simp add: n four greeting_def dec_digits.simps digit_char_def)
  note t = hello_four_workers [OF n, of "\<lparr>stdout = []\<rparr>"]
  show ?thesis
    by (rule conjI [OF n conjI [OF t [THEN conjunct1]
          conjI [OF h t [THEN conjunct2, THEN spec, THEN mp, OF h]]]])
qed

text \<open>
  C6. Two calls with the same team size print the same multiset of lines, whatever the
  states they are entered in: the output of a call depends on the team size only, not on
  what was printed before.
\<close>

theorem hello_output_independent_of_history:
  assumes "mylib_hello extra s1 s1'" and "mylib_hello extra s2 s2'"
  shows "mset (lines_of (printed s1 s1')) = mset (lines_of (printed s2 s2'))"
proof -
  from mylib_hello_output [OF assms(1)] obtain p1 where
    p1: "mset p1 = mset [0..<workerCount extra]"
    and l1: "lines_of (printed s1 s1') = map greeting p1" by (elim exE conjE)
  from mylib_hello_output [OF assms(2)] obtain p2 where
    p2: "mset p2 = mset [0..<workerCount extra]"
    and l2: "lines_of (printed s2 s2') = map greeting p2" by (elim exE conjE)
  from p1 p2 have "mset p1 = mset p2" by simp
  then have "mset (map greeting p1) = mset (map greeting p2)" by (metis mset_map)
  then show ?thesis by (simp only: l1 l2)
qed

theorem hello_output_independent_of_history_witness:
  "mylib_hello 1 \<lparr>stdout = []\<rparr>
     \<lparr>stdout = unlines [''[mylib] Hello from thread 0'', ''[mylib] Hello from thread 1'']\<rparr>
   \<and> mylib_hello 1
     \<lparr>stdout = unlines [''[mylib] Hello from thread 0'', ''[mylib] Hello from thread 1'']\<rparr>
     \<lparr>stdout = unlines [''[mylib] Hello from thread 0'', ''[mylib] Hello from thread 1'']
        @ unlines [''[mylib] Hello from thread 1'', ''[mylib] Hello from thread 0'']\<rparr>
   \<and> mset (lines_of (printed \<lparr>stdout = []\<rparr>
       \<lparr>stdout = unlines [''[mylib] Hello from thread 0'', ''[mylib] Hello from thread 1'']\<rparr>))
     = mset (lines_of (printed
       \<lparr>stdout = unlines [''[mylib] Hello from thread 0'', ''[mylib] Hello from thread 1'']\<rparr>
       \<lparr>stdout = unlines [''[mylib] Hello from thread 0'', ''[mylib] Hello from thread 1'']
          @ unlines [''[mylib] Hello from thread 1'', ''[mylib] Hello from thread 0'']\<rparr>))"
proof -
  have h1: "mylib_hello 1 \<lparr>stdout = []\<rparr>
     \<lparr>stdout = unlines [''[mylib] Hello from thread 0'', ''[mylib] Hello from thread 1'']\<rparr>"
    using mylib_hello_any_order [of "[0, 1]" 1 "\<lparr>stdout = []\<rparr>"]
    by (simp add: workerCount_Suc greeting_def dec_digits.simps digit_char_def)
  have h2: "mylib_hello 1
     \<lparr>stdout = unlines [''[mylib] Hello from thread 0'', ''[mylib] Hello from thread 1'']\<rparr>
     \<lparr>stdout = unlines [''[mylib] Hello from thread 0'', ''[mylib] Hello from thread 1'']
        @ unlines [''[mylib] Hello from thread 1'', ''[mylib] Hello from thread 0'']\<rparr>"
    using mylib_hello_any_order [of "[1, 0]" 1
      "\<lparr>stdout = unlines [''[mylib] Hello from thread 0'', ''[mylib] Hello from thread 1'']\<rparr>"]
    by (simp add: workerCount_Suc greeting_def dec_digits.simps digit_char_def)
  show ?thesis
    by (rule conjI [OF h1 conjI [OF h2 hello_output_independent_of_history [OF h1 h2]]])
qed




text \<open>
  C9. The text printed during a call is its lines, each followed by one newline
  character; no line is empty or contains a newline, and the printed text has as many
  newline characters as the team has threads.
\<close>

theorem hello_lines_newline_terminated:
  assumes "mylib_hello extra s s'"
  shows "printed s s' = unlines (lines_of (printed s s'))
    \<and> (\<forall>l \<in> set (lines_of (printed s s')). l \<noteq> [] \<and> newline \<notin> set l)
    \<and> length (filter (\<lambda>c. c = newline) (printed s s')) = workerCount extra"
proof -
  from mylib_hello_output [OF assms] obtain p where
    p: "mset p = mset [0..<workerCount extra]"
    and t: "printed s s' = unlines (map greeting p)"
    and ls: "lines_of (printed s s') = map greeting p" by (elim exE conjE)
  have whole: "printed s s' = unlines (lines_of (printed s s'))"
    by (rule trans [OF t arg_cong [OF ls, of unlines, symmetric]])
  have each: "\<forall>l \<in> set (lines_of (printed s s')). l \<noteq> [] \<and> newline \<notin> set l"
    by (auto simp: ls greeting_not_Nil newline_notin_greeting)
  have "length (filter (\<lambda>c. c = newline) (unlines (map greeting p))) = length (map greeting p)"
    by (rule newlines_of_unlines) (simp add: newline_notin_greeting)
  also have "\<dots> = length p" by simp
  also have "\<dots> = workerCount extra"
    using mset_eq_length [OF p] by simp
  finally have "length (filter (\<lambda>c. c = newline) (printed s s')) = workerCount extra"
    by (simp only: t)
  with whole each show ?thesis by (intro conjI)
qed

theorem hello_lines_newline_terminated_witness:
  "mylib_hello 1 \<lparr>stdout = ''>''\<rparr>
     \<lparr>stdout = ''>'' @ unlines [''[mylib] Hello from thread 0'', ''[mylib] Hello from thread 1'']\<rparr>
   \<and> printed \<lparr>stdout = ''>''\<rparr>
         \<lparr>stdout = ''>'' @ unlines [''[mylib] Hello from thread 0'', ''[mylib] Hello from thread 1'']\<rparr>
       = unlines (lines_of (printed \<lparr>stdout = ''>''\<rparr>
         \<lparr>stdout = ''>'' @ unlines [''[mylib] Hello from thread 0'', ''[mylib] Hello from thread 1'']\<rparr>))
   \<and> ''[mylib] Hello from thread 1'' \<noteq> []
   \<and> newline \<notin> set ''[mylib] Hello from thread 1''
   \<and> length (filter (\<lambda>c. c = newline) (printed \<lparr>stdout = ''>''\<rparr>
         \<lparr>stdout = ''>'' @ unlines [''[mylib] Hello from thread 0'', ''[mylib] Hello from thread 1'']\<rparr>))
       = workerCount 1"
proof -
  have h: "mylib_hello 1 \<lparr>stdout = ''>''\<rparr>
     \<lparr>stdout = ''>'' @ unlines [''[mylib] Hello from thread 0'', ''[mylib] Hello from thread 1'']\<rparr>"
    using mylib_hello_any_order [of "[0, 1]" 1 "\<lparr>stdout = ''>''\<rparr>"]
    by (simp add: workerCount_Suc greeting_def dec_digits.simps digit_char_def)
  have m: "''[mylib] Hello from thread 1'' \<in> set (lines_of (printed \<lparr>stdout = ''>''\<rparr>
     \<lparr>stdout = ''>'' @ unlines [''[mylib] Hello from thread 0'', ''[mylib] Hello from thread 1'']\<rparr>))"
    by (simp add: printed_def unlines_def newline_def)
  note t = hello_lines_newline_terminated [OF h]
  note each = bspec [OF t [THEN conjunct2, THEN conjunct1] m]
  show ?thesis
    by (rule conjI [OF h conjI [OF t [THEN conjunct1]
          conjI [OF each [THEN conjunct1] conjI [OF each [THEN conjunct2]
            t [THEN conjunct2, THEN conjunct2]]]]])
qed

text \<open>
  C10. Every call returns, having printed at least one line, and the line with index 0 is
  among the lines printed, whatever number of threads the runtime adds to the calling
  thread.
\<close>

theorem hello_prints_index_zero:
  "(\<exists>s'. mylib_hello extra s s') \<and>
   (\<forall>s'. mylib_hello extra s s' \<longrightarrow>
      1 \<le> length (lines_of (printed s s'))
      \<and> ''[mylib] Hello from thread 0'' \<in> set (lines_of (printed s s'))
      \<and> Some 0 \<in> set (map thread_index (lines_of (printed s s'))))"
proof (rule conjI)
  show "\<exists>s'. mylib_hello extra s s'" by (rule mylib_hello_total)
  show "\<forall>s'. mylib_hello extra s s' \<longrightarrow>
      1 \<le> length (lines_of (printed s s'))
      \<and> ''[mylib] Hello from thread 0'' \<in> set (lines_of (printed s s'))
      \<and> Some 0 \<in> set (map thread_index (lines_of (printed s s')))"
  proof (intro allI impI)
    fix s'
    assume "mylib_hello extra s s'"
    then show "1 \<le> length (lines_of (printed s s'))
      \<and> ''[mylib] Hello from thread 0'' \<in> set (lines_of (printed s s'))
      \<and> Some 0 \<in> set (map thread_index (lines_of (printed s s')))"
      by (rule index_zero_after_call)
  qed
qed

theorem hello_prints_index_zero_witness:
  "(\<exists>s'. mylib_hello 1 \<lparr>stdout = ''a''\<rparr> s')
   \<and> mylib_hello 1 \<lparr>stdout = ''a''\<rparr>
       \<lparr>stdout = ''a'' @ unlines [''[mylib] Hello from thread 1'', ''[mylib] Hello from thread 0'']\<rparr>
   \<and> 1 \<le> length (lines_of (printed \<lparr>stdout = ''a''\<rparr>
         \<lparr>stdout = ''a'' @ unlines [''[mylib] Hello from thread 1'', ''[mylib] Hello from thread 0'']\<rparr>))
   \<and> ''[mylib] Hello from thread 0'' \<in> set (lines_of (printed \<lparr>stdout = ''a''\<rparr>
         \<lparr>stdout = ''a'' @ unlines [''[mylib] Hello from thread 1'', ''[mylib] Hello from thread 0'']\<rparr>))
   \<and> Some 0 \<in> set (map thread_index (lines_of (printed \<lparr>stdout = ''a''\<rparr>
         \<lparr>stdout = ''a'' @ unlines [''[mylib] Hello from thread 1'', ''[mylib] Hello from thread 0'']\<rparr>)))"
proof -
  have h: "mylib_hello 1 \<lparr>stdout = ''a''\<rparr>
      \<lparr>stdout = ''a'' @ unlines [''[mylib] Hello from thread 1'', ''[mylib] Hello from thread 0'']\<rparr>"
    using mylib_hello_any_order [of "[1, 0]" 1 "\<lparr>stdout = ''a''\<rparr>"]
    by (simp add: workerCount_Suc greeting_def dec_digits.simps digit_char_def)
  note t = hello_prints_index_zero [of 1 "\<lparr>stdout = ''a''\<rparr>"]
  show ?thesis
    by (rule conjI [OF t [THEN conjunct1]
          conjI [OF h t [THEN conjunct2, THEN spec, THEN mp, OF h]]])
qed

end
